theory Spec2Isabelle
  imports Main
begin

section \<open>Strings\<close>

text \<open>
  A Python \<open>str\<close> is modelled as a \<^typ>\<open>string\<close>, each \<^typ>\<open>char\<close> read as one code point in
  the range 0..255, so that \<^const>\<open>length\<close> counts what Python's \<open>len\<close> counts on such text.
  \<open>is_space\<close> is Python's notion of whitespace on that range (the one \<open>str.strip()\<close> and the
  regular expression class \<open>\s\<close> use), \<open>in_class\<close> is the character class \<open>[^_\s]\<close> of
  \<open>parse_location_string\<close>.
\<close>

definition is_space :: "char \<Rightarrow> bool" where
  "is_space c \<longleftrightarrow>
     c \<in> set [CHR 0x09, CHR 0x0A, CHR 0x0B, CHR 0x0C, CHR 0x0D,
               CHR 0x1C, CHR 0x1D, CHR 0x1E, CHR 0x1F, CHR 0x20, CHR 0x85, CHR 0xA0]"

definition in_class :: "char \<Rightarrow> bool" where
  "in_class c \<longleftrightarrow> c \<noteq> CHR ''_'' \<and> \<not> is_space c"

text \<open>\<open>s.strip()\<close>: leading and trailing whitespace removed.\<close>

definition strip :: "string \<Rightarrow> string" where
  "strip s = rev (dropWhile is_space (rev (dropWhile is_space s)))"

text \<open>\<open>sub in s\<close> on two strings: \<open>sub\<close> occurs in \<open>s\<close> as a contiguous substring.\<close>

fun startswith :: "string \<Rightarrow> string \<Rightarrow> bool" where
  "startswith s [] = True"
| "startswith [] (b # sub) = False"
| "startswith (c # s) (b # sub) = (c = b \<and> startswith s sub)"

fun str_in :: "string \<Rightarrow> string \<Rightarrow> bool" where
  "str_in sub [] = (sub = [])"
| "str_in sub (c # s) = (startswith (c # s) sub \<or> str_in sub s)"

text \<open>
  \<open>s.upper()\<close> on the code points 0..255: the letters a..z and the lower-case letters
  0xE0..0xFE (but not the division sign 0xF7) go to the letter 32 places below, the sharp s
  0xDF becomes \<open>SS\<close>, every other character is kept. Python maps two more characters of
  the range, the micro sign 0xB5 and the y with diaeresis 0xFF, to capitals beyond 255, which
  a \<^typ>\<open>char\<close> cannot hold: \<open>upper\<close> describes \<open>s.upper()\<close> for the strings without these two
  (\<open>upper_representable\<close>).
\<close>

definition upper_char :: "char \<Rightarrow> string" where
  "upper_char c =
     (let n = (of_char c :: nat) in
      if 97 \<le> n \<and> n \<le> 122 then [char_of (n - 32)]
      else if 224 \<le> n \<and> n \<le> 254 \<and> n \<noteq> 247 then [char_of (n - 32)]
      else if n = 223 then ''SS''
      else [c])"

definition upper :: "string \<Rightarrow> string" where
  "upper s = concat (map upper_char s)"

definition upper_representable :: "string \<Rightarrow> bool" where
  "upper_representable s \<longleftrightarrow> CHR 0xB5 \<notin> set s \<and> CHR 0xFF \<notin> set s"

text \<open>\<open>sep.join(xs)\<close>.\<close>

definition join :: "string \<Rightarrow> string list \<Rightarrow> string" where
  "join sep xs = (case xs of [] \<Rightarrow> [] | y # ys \<Rightarrow> y @ concat (map (\<lambda>x. sep @ x) ys))"


section \<open>Location parser\<close>

text \<open>
  The argument of \<open>parse_location_string\<close> is any Python value: \<open>None\<close>, a string, or a value
  of another type, of which only its truth value could matter (\<open>PyOther b\<close>).
\<close>

datatype py_value = PyNone | PyStr string | PyOther bool

text \<open>
  \<open>re.findall(r'([^_\s]+)', s)\<close>: the scan starts at the left; where the character is in the
  class, the greedy \<open>+\<close> takes the whole run of class characters and the scan goes on behind
  it; where it is not, the scan moves one character on.
\<close>

function findall :: "string \<Rightarrow> string list" where
  "findall [] = []"
| "findall (c # cs) =
     (if in_class c then (c # takeWhile in_class cs) # findall (dropWhile in_class cs)
      else findall cs)"
  by pat_completeness auto
termination
  by (relation "measure length") (auto simp: length_dropWhile_le less_Suc_eq_le)

definition parse_location_string :: "py_value \<Rightarrow> string list" where
  "parse_location_string location_str =
     (let location_parts = replicate 7 [] in
      case location_str of
        PyStr s \<Rightarrow>
          if s = [] then location_parts
          else
            let matches = findall (strip s)
            in fold (\<lambda>(i, m) parts. parts[i := m]) (enumerate 0 (take 7 matches)) location_parts
      | _ \<Rightarrow> location_parts)"

text \<open>
  The tokenisation in the words of the specification, for comparison with \<open>findall\<close>: the
  text is split at every whitespace or underscore character, and the non-empty pieces between
  them are the tokens. \<open>split_runs cur s\<close> carries the piece read so far.
\<close>

fun split_runs :: "string \<Rightarrow> string \<Rightarrow> string list" where
  "split_runs cur [] = (if cur = [] then [] else [cur])"
| "split_runs cur (c # cs) =
     (if c = CHR ''_'' \<or> is_space c
      then (if cur = [] then split_runs [] cs else cur # split_runs [] cs)
      else split_runs (cur @ [c]) cs)"

definition spec_tokens :: "string \<Rightarrow> string list" where
  "spec_tokens s = split_runs [] s"


section \<open>Tables\<close>

text \<open>
  A column label of the data frame is a string or, for a header cell that is a number, a
  number. A cell is represented by the two observations the program makes of it:
  \<open>pd.notna(v)\<close> and \<open>str(v)\<close>. A data frame has its column labels and its rows, each row with
  its index label, in the order in which \<open>df.iterrows()\<close> yields them; \<open>len(df)\<close> is the number
  of rows. An index label is an integer (a position \<open>0, 1, ...\<close> of the default index, or a
  value of an integer column that the reader of the file took as the index) or a text (a value
  of a text column taken as the index). Every row of a data frame has one cell per column
  (\<open>well_formed\<close>).
\<close>

datatype label = Str string | Num int

datatype index_label = IntLabel int | TextLabel string

record cell =
  cell_notna :: bool
  cell_str :: string

record data_frame =
  columns :: "label list"
  rows :: "(index_label \<times> cell list) list"

definition well_formed :: "data_frame \<Rightarrow> bool" where
  "well_formed df \<longleftrightarrow> list_all (\<lambda>r. length (snd r) = length (columns df)) (rows df)"

definition int_index :: "data_frame \<Rightarrow> bool" where
  "int_index df \<longleftrightarrow>
     list_all (\<lambda>r. case fst r of IntLabel i \<Rightarrow> True | TextLabel t \<Rightarrow> False) (rows df)"

datatype py_error = IndexError | TypeError | KeyError | LibraryError

text \<open>\<open>index < n\<close> for an index label and an integer: a text label raises \<open>TypeError\<close>.\<close>

definition index_lt :: "index_label \<Rightarrow> int \<Rightarrow> py_error + bool" where
  "index_lt index n = (case index of IntLabel i \<Rightarrow> Inr (i < n) | TextLabel t \<Rightarrow> Inl TypeError)"

definition and_then :: "'e + 'a \<Rightarrow> ('a \<Rightarrow> 'e + 'b) \<Rightarrow> 'e + 'b" where
  "and_then r f = (case r of Inl e \<Rightarrow> Inl e | Inr v \<Rightarrow> f v)"


section \<open>Column resolution\<close>

text \<open>\<open>col.upper() if isinstance(col, str) else col\<close>.\<close>

definition upper_label :: "label \<Rightarrow> label" where
  "upper_label col = (case col of Str s \<Rightarrow> Str (upper s) | Num n \<Rightarrow> Num n)"

definition label_representable :: "label \<Rightarrow> bool" where
  "label_representable col = (case col of Str s \<Rightarrow> upper_representable s | Num n \<Rightarrow> True)"

text \<open>The labels of the frame are pairwise different after the upper-casing.\<close>

definition unique_labels :: "data_frame \<Rightarrow> bool" where
  "unique_labels df \<longleftrightarrow> distinct (map upper_label (columns df))"

text \<open>
  A condition built from substring tests \<open>'...' in col\<close>: on a label that is not a string the
  first test raises \<open>TypeError\<close>.
\<close>

definition substr_test :: "(string \<Rightarrow> bool) \<Rightarrow> label \<Rightarrow> py_error + bool" where
  "substr_test p col = (case col of Str s \<Rightarrow> Inr (p s) | Num n \<Rightarrow> Inl TypeError)"

text \<open>
  \<open>next((col for col in cols if p(col)), dflt)\<close>. Python evaluates \<open>dflt\<close> before the
  scan starts, so the caller computes it first.
\<close>

fun first_match :: "(label \<Rightarrow> py_error + bool) \<Rightarrow> label list \<Rightarrow> py_error + label option" where
  "first_match p [] = Inr None"
| "first_match p (c # cs) =
     (case p c of
        Inl e \<Rightarrow> Inl e
      | Inr b \<Rightarrow> if b then Inr (Some c) else first_match p cs)"

definition next_gen ::
  "(label \<Rightarrow> py_error + bool) \<Rightarrow> label list \<Rightarrow> label option \<Rightarrow> py_error + label option" where
  "next_gen p cols dflt =
     and_then (first_match p cols)
       (\<lambda>r. Inr (case r of None \<Rightarrow> dflt | Some c \<Rightarrow> Some c))"

text \<open>The truth value of a variable that holds \<open>None\<close> or a label.\<close>

definition truthy :: "label option \<Rightarrow> bool" where
  "truthy v = (case v of None \<Rightarrow> False | Some (Str s) \<Rightarrow> s \<noteq> [] | Some (Num n) \<Rightarrow> n \<noteq> 0)"

definition is_part_no :: "label \<Rightarrow> py_error + bool" where
  "is_part_no = substr_test (\<lambda>col. str_in ''PART'' col \<and>
                  (str_in ''NO'' col \<or> str_in ''NUM'' col \<or> str_in ''#'' col))"

definition is_part_exact :: "label \<Rightarrow> py_error + bool" where
  "is_part_exact col = Inr (col \<in> set [Str ''PARTNO'', Str ''PART''])"

definition is_desc :: "label \<Rightarrow> py_error + bool" where
  "is_desc = substr_test (str_in ''DESC'')"

definition is_name :: "label \<Rightarrow> py_error + bool" where
  "is_name = substr_test (str_in ''NAME'')"

definition is_qty_bin :: "label \<Rightarrow> py_error + bool" where
  "is_qty_bin = substr_test (\<lambda>col. str_in ''QTY/BIN'' col \<or> str_in ''QTY_BIN'' col \<or>
                  str_in ''QTYBIN'' col)"

definition is_qty_and_bin :: "label \<Rightarrow> py_error + bool" where
  "is_qty_and_bin = substr_test (\<lambda>col. str_in ''QTY'' col \<and> str_in ''BIN'' col)"

definition is_qty :: "label \<Rightarrow> py_error + bool" where
  "is_qty = substr_test (str_in ''QTY'')"

definition is_quantity :: "label \<Rightarrow> py_error + bool" where
  "is_quantity = substr_test (str_in ''QUANTITY'')"

definition is_loc :: "label \<Rightarrow> py_error + bool" where
  "is_loc = substr_test (\<lambda>col. str_in ''LOC'' col \<or> str_in ''POS'' col \<or>
              str_in ''LOCATION'' col)"

definition is_store_loc :: "label \<Rightarrow> py_error + bool" where
  "is_store_loc = substr_test (\<lambda>col. str_in ''STORE'' col \<and> str_in ''LOC'' col)"

definition is_storelocation :: "label \<Rightarrow> py_error + bool" where
  "is_storelocation = substr_test (str_in ''STORELOCATION'')"

record column_mapping =
  part_no_col :: "label option"
  desc_col :: "label option"
  qty_bin_col :: "label option"
  loc_col :: "label option"
  store_loc_col :: "label option"

text \<open>
  The statements that find the relevant columns, on the upper-cased labels \<open>cols\<close>. In each
  nested \<open>next\<close> the inner call is the default of the outer one and runs first; \<open>cols[0]\<close> is the
  default of the innermost call of the first statement and raises \<open>IndexError\<close> on a table
  without columns.
\<close>

definition resolve_columns :: "label list \<Rightarrow> py_error + column_mapping" where
  "resolve_columns cols =
     (case cols of
        [] \<Rightarrow> Inl IndexError
      | c0 # _ \<Rightarrow>
          and_then (next_gen is_part_exact cols (Some c0)) (\<lambda>d1.
          and_then (next_gen is_part_no cols d1) (\<lambda>part_no.
          and_then (next_gen is_name cols
                      (if length cols > 1 then Some (cols ! 1) else part_no)) (\<lambda>d2.
          and_then (next_gen is_desc cols d2) (\<lambda>desc.
          and_then (next_gen is_qty_and_bin cols None) (\<lambda>d3.
          and_then (next_gen is_qty_bin cols d3) (\<lambda>qty0.
          and_then (if \<not> truthy qty0
                    then and_then (next_gen is_quantity cols None) (\<lambda>d4.
                           next_gen is_qty cols d4)
                    else Inr qty0) (\<lambda>qty_bin.
          and_then (next_gen is_loc cols
                      (if length cols > 2 then Some (cols ! 2) else desc)) (\<lambda>loc.
          and_then (next_gen is_storelocation cols None) (\<lambda>d5.
          and_then (next_gen is_store_loc cols d5) (\<lambda>store_loc.
          Inr \<lparr>part_no_col = part_no, desc_col = desc, qty_bin_col = qty_bin,
               loc_col = loc, store_loc_col = store_loc\<rparr>)))))))))))"


section \<open>One sticker\<close>

text \<open>
  \<open>row[col]\<close> on a row of the frame, and \<open>col in row\<close>. A label that is not among the columns
  raises \<open>KeyError\<close>. \<open>row_get\<close> is the lookup for a label that occurs once among the columns;
  for a label that is repeated after the upper-casing pandas hands back all its cells at once,
  which \<open>row_get\<close> does not describe. The properties of whole runs below are therefore stated
  for frames with \<open>unique_labels\<close>.
\<close>

definition row_get :: "label list \<Rightarrow> cell list \<Rightarrow> label option \<Rightarrow> py_error + cell" where
  "row_get cols row col =
     (case col of
        None \<Rightarrow> Inl KeyError
      | Some c \<Rightarrow> (case map_of (zip cols row) c of None \<Rightarrow> Inl KeyError | Some v \<Rightarrow> Inr v))"

definition in_row :: "label list \<Rightarrow> label option \<Rightarrow> bool" where
  "in_row cols col = (case col of None \<Rightarrow> False | Some c \<Rightarrow> c \<in> set cols)"

text \<open>The values extracted from one row.\<close>

record fields =
  part_no :: string
  desc :: string
  qty_bin :: string
  location_str :: string
  store_location :: string

definition extract_fields :: "label list \<Rightarrow> column_mapping \<Rightarrow> cell list \<Rightarrow> py_error + fields" where
  "extract_fields cols m row =
     and_then (row_get cols row (part_no_col m)) (\<lambda>p.
     and_then (row_get cols row (desc_col m)) (\<lambda>d.
     and_then (if truthy (qty_bin_col m) \<and> in_row cols (qty_bin_col m)
               then and_then (row_get cols row (qty_bin_col m))
                      (\<lambda>q. Inr (if cell_notna q then cell_str q else []))
               else Inr []) (\<lambda>qty.
     and_then (if truthy (loc_col m) \<and> in_row cols (loc_col m)
               then and_then (row_get cols row (loc_col m)) (\<lambda>l. Inr (cell_str l))
               else Inr []) (\<lambda>loc.
     and_then (if truthy (store_loc_col m) \<and> in_row cols (store_loc_col m)
               then and_then (row_get cols row (store_loc_col m)) (\<lambda>l. Inr (cell_str l))
               else Inr []) (\<lambda>store.
     Inr \<lparr>part_no = cell_str p, desc = cell_str d, qty_bin = qty,
          location_str = loc, store_location = store\<rparr>)))))"

text \<open>The text that the QR code encodes.\<close>

definition qr_data :: "fields \<Rightarrow> string" where
  "qr_data f =
     ''Part No: '' @ part_no f @ [CHR 0x0A] @ ''Description: '' @ desc f @ [CHR 0x0A] @
     ''Location: '' @ location_str f @ [CHR 0x0A] @
     ''Store Location: '' @ store_location f @ [CHR 0x0A] @ ''QTY/BIN: '' @ qty_bin f"

text \<open>
  \<open>generate_qr_code\<close>: the calls into the QR and image libraries are the parameter \<open>qr_lib\<close>,
  which yields the image or raises; the \<open>except\<close> clause turns every exception into \<open>None\<close>.
\<close>

definition generate_qr_code :: "(string \<Rightarrow> py_error + 'img) \<Rightarrow> string \<Rightarrow> 'img option" where
  "generate_qr_code qr_lib data_string =
     (case qr_lib data_string of Inl e \<Rightarrow> None | Inr img \<Rightarrow> Some img)"

text \<open>
  The composed sticker. A \<open>Paragraph\<close> is the text and the style it is built from; the
  sticker holds the cell contents of its tables. Lengths (column widths, row heights) and the
  grid styles of the inner tables take no part in the properties below and are left out.
\<close>

datatype alignment = TA_LEFT | TA_CENTER

record paragraph_style =
  style_name :: string
  fontName :: string
  fontSize :: nat
  alignment :: alignment
  leading :: "nat option"

datatype para = Paragraph string paragraph_style

definition bold_style :: paragraph_style where
  "bold_style = \<lparr>style_name = ''Bold'', fontName = ''Helvetica-Bold'', fontSize = 9,
                 alignment = TA_CENTER, leading = Some 10\<rparr>"

definition desc_style :: paragraph_style where
  "desc_style = \<lparr>style_name = ''Desc'', fontName = ''Helvetica'', fontSize = 7,
                 alignment = TA_LEFT, leading = Some 9\<rparr>"

definition qty_style :: paragraph_style where
  "qty_style = \<lparr>style_name = ''Quantity'', fontName = ''Helvetica'', fontSize = 8,
                alignment = TA_CENTER, leading = Some 11\<rparr>"

definition store_loc_style :: paragraph_style where
  "store_loc_style = \<lparr>style_name = ''StoreLoc'', fontName = ''Helvetica-Bold'', fontSize = 7,
                      alignment = TA_CENTER, leading = None\<rparr>"

definition line_loc_style :: paragraph_style where
  "line_loc_style = \<lparr>style_name = ''LineLoc'', fontName = ''Helvetica-Bold'', fontSize = 7,
                     alignment = TA_CENTER, leading = None\<rparr>"

definition qr_placeholder_style :: paragraph_style where
  "qr_placeholder_style = \<lparr>style_name = ''QRPlaceholder'', fontName = ''Helvetica-Bold'',
                           fontSize = 10, alignment = TA_CENTER, leading = None\<rparr>"

datatype 'img qr_content = QrImage 'img | QrText para

record 'img sticker =
  main_table_data :: "(string \<times> para) list"
  store_loc_label :: para
  store_loc_values :: "string list"
  line_loc_label :: para
  location_parts :: "string list"
  qr_table :: "'img qr_content"
  qr_table_style :: "(string \<times> string) list"

definition compose_sticker :: "'img option \<Rightarrow> fields \<Rightarrow> 'img sticker" where
  "compose_sticker qr_image f =
     \<lparr>main_table_data =
        [(''Part No'', Paragraph (part_no f) bold_style),
         (''Desc'', Paragraph (if length (desc f) > 30 then take 30 (desc f) @ ''...''
                               else desc f) desc_style),
         (''Q/B'', Paragraph (qty_bin f) qty_style)],
      store_loc_label = Paragraph ''S.LOC'' store_loc_style,
      store_loc_values =
        (if store_location f \<noteq> [] then parse_location_string (PyStr (store_location f))
         else [[], [], [], [], [], [], []]),
      line_loc_label = Paragraph ''L.LOC'' line_loc_style,
      location_parts = parse_location_string (PyStr (location_str f)),
      qr_table =
        (case qr_image of
           Some img \<Rightarrow> QrImage img
         | None \<Rightarrow> QrText (Paragraph ''QR'' qr_placeholder_style)),
      qr_table_style = [(''ALIGN'', ''CENTER''), (''VALIGN'', ''MIDDLE'')]\<rparr>"

definition make_sticker ::
  "(string \<Rightarrow> py_error + 'img) \<Rightarrow> label list \<Rightarrow> column_mapping \<Rightarrow> cell list \<Rightarrow>
   py_error + 'img sticker" where
  "make_sticker qr_lib cols m row =
     and_then (extract_fields cols m row)
       (\<lambda>f. Inr (compose_sticker (generate_qr_code qr_lib (qr_data f)) f))"


section \<open>The document\<close>

text \<open>
  The story handed to the PDF library is a list of flowables. The loop over \<open>df.iterrows()\<close>
  appends the spacer and the table of each sticker, then a page break where the row's index
  label is below \<open>len(df) - 1\<close>. The frame is the caller's object and the loop reads \<open>len(df)\<close>
  from it in every round, so the loop takes the frame and hands it back. Progress and status
  reporting (optional arguments, \<open>None\<close> by default, the only readers of \<open>total_rows\<close>) are
  left out.
\<close>

datatype 'img flowable = Spacer | FinalTable "'img sticker" | PageBreak

fun sticker_loop ::
  "(string \<Rightarrow> py_error + 'img) \<Rightarrow> label list \<Rightarrow> column_mapping \<Rightarrow>
   (index_label \<times> cell list) list \<Rightarrow> 'img flowable list \<Rightarrow> data_frame \<Rightarrow>
   data_frame \<times> (py_error + 'img flowable list)" where
  "sticker_loop qr_lib cols m [] all_elements df = (df, Inr all_elements)"
| "sticker_loop qr_lib cols m ((index, row) # rest) all_elements df =
     (case make_sticker qr_lib cols m row of
        Inl e \<Rightarrow> (df, Inl e)
      | Inr final_table \<Rightarrow>
          let elements = [Spacer, FinalTable final_table];
              all_elements = all_elements @ elements
          in case index_lt index (int (length (rows df)) - 1) of
               Inl e \<Rightarrow> (df, Inl e)
             | Inr b \<Rightarrow>
                 sticker_loop qr_lib cols m rest
                   (if b then all_elements @ [PageBreak] else all_elements) df)"

text \<open>
  \<open>generate_sticker_labels\<close>. The assignment to \<open>df.columns\<close> changes the caller's frame, so
  the frame is returned with the result, also when an exception leaves the function. The
  result is \<open>Inl\<close> for an exception that leaves the function, \<open>Inr None\<close> for \<open>return None\<close>
  (the build raised) and \<open>Inr (Some story)\<close> for \<open>return temp_path\<close>, the file then holding the
  document built from \<open>story\<close>. \<open>doc_build\<close> is \<open>doc.build\<close> of the PDF library.
\<close>

definition generate_sticker_labels ::
  "(string \<Rightarrow> py_error + 'img) \<Rightarrow> ('img flowable list \<Rightarrow> py_error + unit) \<Rightarrow> data_frame \<Rightarrow>
   data_frame \<times> (py_error + 'img flowable list option)" where
  "generate_sticker_labels qr_lib doc_build df =
     (let df = df\<lparr>columns := map upper_label (columns df)\<rparr>;
          cols = columns df
      in case resolve_columns cols of
           Inl e \<Rightarrow> (df, Inl e)
         | Inr m \<Rightarrow>
             let (df, looped) = sticker_loop qr_lib cols m (rows df) [] df
             in (df,
                 and_then looped (\<lambda>all_elements.
                 case doc_build all_elements of
                   Inl e \<Rightarrow> Inr None
                 | Inr u \<Rightarrow> Inr (Some all_elements))))"

text \<open>A build of the PDF library that raises, as when the file cannot be written.\<close>

definition build_fails :: "'img flowable list \<Rightarrow> py_error + unit" where
  "build_fails story = Inl LibraryError"

text \<open>
  The pages of a built story: a page ends at a page break and at the end of the story;
  \<open>pages cur fs\<close> carries the flowables of the page being filled. One sticker (spacer 0.3 cm,
  table 3 cm) is far smaller than the page (15 cm), so the library starts no page on its own
  between the stickers of one page as long as they are few.
\<close>

fun pages :: "'img flowable list \<Rightarrow> 'img flowable list \<Rightarrow> 'img flowable list list" where
  "pages cur [] = (if cur = [] then [] else [cur])"
| "pages cur (PageBreak # fs) = cur # pages [] fs"
| "pages cur (f # fs) = pages (cur @ [f]) fs"

definition stickers :: "'img flowable list \<Rightarrow> 'img sticker list" where
  "stickers story = concat (map (\<lambda>f. case f of FinalTable s \<Rightarrow> [s] | _ \<Rightarrow> []) story)"


section \<open>The location parser\<close>

lemma fill_slots:
  "k + length ms \<le> length parts \<Longrightarrow>
   fold (\<lambda>(i, m) parts. parts[i := m]) (enumerate k ms) parts =
     take k parts @ ms @ drop (k + length ms) parts"
proof (induction ms arbitrary: k parts)
  case Nil
  then show ?case by simp
next
  case (Cons m ms)
  have "fold (\<lambda>(i, m) parts. parts[i := m]) (enumerate k (m # ms)) parts =
        fold (\<lambda>(i, m) parts. parts[i := m]) (enumerate (Suc k) ms) (parts[k := m])"
    by simp
  also have "\<dots> = take (Suc k) (parts[k := m]) @ ms @ drop (Suc k + length ms) (parts[k := m])"
    using Cons.prems by (intro Cons.IH) simp
  also have "\<dots> = take k parts @ (m # ms) @ drop (k + length (m # ms)) parts"
    using Cons.prems by (simp add: take_Suc_conv_app_nth)
  finally show ?case .
qed

lemma fill_slots_7:
  "fold (\<lambda>(i, m) parts. parts[i := m]) (enumerate 0 (take 7 ms)) (replicate 7 []) =
     take 7 ms @ replicate (7 - length ms) []"
proof -
  have "fold (\<lambda>(i, m) parts. parts[i := m]) (enumerate 0 (take 7 ms)) (replicate 7 []) =
        take 0 (replicate 7 []) @ take 7 ms @ drop (0 + length (take 7 ms)) (replicate 7 [])"
    by (rule fill_slots) simp
  then show ?thesis by (simp add: min_def)
qed

lemma takeWhile_all: "list_all P (takeWhile P xs)"
  by (induction xs) simp_all

lemma findall_tokens: "list_all (\<lambda>t. t \<noteq> [] \<and> list_all in_class t) (findall s)"
proof (induction s rule: findall.induct)
  case 1
  show ?case by simp
next
  case (2 c cs)
  show ?case
  proof (cases "in_class c")
    case True
    with 2 show ?thesis by (simp add: takeWhile_all)
  next
    case False
    with 2 show ?thesis by simp
  qed
qed

lemma findall_token_append:
  assumes "t \<noteq> []" "list_all in_class t" "rest = [] \<or> \<not> in_class (hd rest)"
  shows "findall (t @ rest) = t # findall rest"
proof -
  obtain c cs where t: "t = c # cs" using assms(1) by (cases t) auto
  have tw: "takeWhile in_class (cs @ rest) = cs" and dw: "dropWhile in_class (cs @ rest) = rest"
    using assms(2,3) unfolding t
    by (cases rest; auto simp: list_all_iff takeWhile_append2 dropWhile_append2)+
  show ?thesis using assms(2) unfolding t by (simp add: tw dw)
qed

lemma split_runs_findall:
  "split_runs cur s =
     (if cur = [] then findall s
      else (cur @ takeWhile in_class s) # findall (dropWhile in_class s))"
  by (induction s arbitrary: cur) (auto simp: in_class_def)

lemma spec_tokens_findall: "spec_tokens s = findall s"
  by (simp add: spec_tokens_def split_runs_findall)

lemma parse_str:
  "parse_location_string (PyStr s) =
     take 7 (findall (strip s)) @ replicate (7 - length (findall (strip s))) []"
  by (cases "s = []") (simp_all add: parse_location_string_def fill_slots_7 strip_def)

lemma parse_not_str:
  "parse_location_string PyNone = replicate 7 []"
  "parse_location_string (PyOther b) = replicate 7 []"
  by (simp_all add: parse_location_string_def)

lemma length_parse: "length (parse_location_string v) = 7"
  by (cases v) (simp_all add: parse_str parse_not_str)

text \<open>
  C1. For every input the parser returns exactly 7 slots. For a string the slots are the
  first seven tokens of the trimmed input, in order, the tokens being the maximal runs of
  characters that are neither whitespace nor underscore (\<open>spec_tokens\<close>, the splitting of the
  specification); further tokens are dropped and the slots left over are empty strings. The
  empty string, \<open>None\<close> and a value that is not a string give seven empty strings, and
  \<open>"A_B C"\<close> gives \<open>A\<close>, \<open>B\<close>, \<open>C\<close> and four empty strings.
\<close>

theorem parse_location_string_slots:
  "length (parse_location_string v) = 7 \<and>
   parse_location_string (PyStr s) =
     take 7 (spec_tokens (strip s)) @ replicate (7 - length (spec_tokens (strip s))) [] \<and>
   parse_location_string (PyStr ''A_B C'') = [''A'', ''B'', ''C'', [], [], [], []] \<and>
   parse_location_string (PyStr []) = [[], [], [], [], [], [], []] \<and>
   parse_location_string PyNone = [[], [], [], [], [], [], []] \<and>
   parse_location_string (PyOther b) = [[], [], [], [], [], [], []]"
proof -
  have ex: "parse_location_string (PyStr ''A_B C'') = [''A'', ''B'', ''C'', [], [], [], []]"
    by code_simp
  have seven: "replicate 7 [] = [[], [], [], [], [], [], []::string]"
    by (simp add: numeral_eq_Suc)
  have empty: "parse_location_string (PyStr []) = [[], [], [], [], [], [], []]"
    by (simp add: parse_location_string_def seven)
  show ?thesis
    using ex empty length_parse [of v] parse_str [of s] parse_not_str(1) parse_not_str(2) [of b]
    by (simp add: spec_tokens_findall seven)
qed

lemma sep_cons: "(@) ''_'' = (#) CHR ''_''"
  by (rule ext) simp

lemma findall_sep_tokens:
  "list_all (\<lambda>t. t \<noteq> [] \<and> list_all in_class t) ts \<Longrightarrow>
   findall (concat (map (\<lambda>x. ''_'' @ x) ts)) = ts"
proof (induction ts)
  case Nil
  show ?case by simp
next
  case (Cons t ts)
  let ?rest = "concat (map (\<lambda>x. ''_'' @ x) ts)"
  have rest: "?rest = [] \<or> \<not> in_class (hd ?rest)"
    by (cases ts) (simp_all add: in_class_def)
  have "findall (concat (map (\<lambda>x. ''_'' @ x) (t # ts))) = findall (t @ ?rest)"
    by (simp add: in_class_def)
  also have "\<dots> = t # findall ?rest"
    using Cons.prems rest by (intro findall_token_append) simp_all
  also have "findall ?rest = ts"
    using Cons by simp
  finally show ?case .
qed

lemma findall_join:
  assumes "list_all (\<lambda>t. t \<noteq> [] \<and> list_all in_class t) ts"
  shows "findall (join ''_'' ts) = ts"
proof (cases ts)
  case Nil
  then show ?thesis by (simp add: join_def)
next
  case (Cons t ts')
  let ?rest = "concat (map (\<lambda>x. ''_'' @ x) ts')"
  have rest: "?rest = [] \<or> \<not> in_class (hd ?rest)"
    by (cases ts') (simp_all add: in_class_def)
  have "findall (join ''_'' ts) = findall (t @ ?rest)"
    by (simp add: join_def Cons sep_cons)
  also have "\<dots> = t # findall ?rest"
    using assms rest unfolding Cons by (intro findall_token_append) simp_all
  also have "findall ?rest = ts'"
    using assms unfolding Cons by (intro findall_sep_tokens) simp
  finally show ?thesis by (simp add: Cons)
qed

lemma strip_id:
  assumes "s \<noteq> []" "\<not> is_space (hd s)" "\<not> is_space (last s)"
  shows "strip s = s"
proof -
  have a: "dropWhile is_space s = s"
    using assms(1,2) by (cases s) simp_all
  have b: "dropWhile is_space (rev s) = rev s"
    using assms(1,3) by (cases "rev s") (simp_all add: last_rev [symmetric] hd_rev)
  show ?thesis by (simp add: strip_def a b)
qed

lemma join_ends:
  assumes "ts \<noteq> []" "list_all (\<lambda>t. t \<noteq> [] \<and> list_all in_class t) ts"
  shows "join ''_'' ts \<noteq> [] \<and> in_class (hd (join ''_'' ts)) \<and> in_class (last (join ''_'' ts))"
proof -
  obtain t ts' where ts: "ts = t # ts'" using assms(1) by (cases ts) auto
  have t: "t \<noteq> []" "list_all in_class t" using assms(2) ts by simp_all
  have hd: "in_class (hd t)" using t by (cases t) simp_all
  have lastc: "\<And>u. u \<noteq> [] \<Longrightarrow> list_all in_class u \<Longrightarrow> in_class (last u)"
    by (simp add: list_all_iff)
  show ?thesis
  proof (cases "ts' = []")
    case True
    then show ?thesis using t hd lastc[of t] by (simp add: join_def ts)
  next
    case False
    then obtain us u where ts': "ts' = us @ [u]" by (metis rev_exhaust)
    have u: "u \<noteq> []" "list_all in_class u" using assms(2) ts ts' by simp_all
    have "join ''_'' ts = (t @ concat (map (\<lambda>x. ''_'' @ x) us) @ ''_'') @ u"
      by (simp add: join_def ts ts' sep_cons)
    then have "last (join ''_'' ts) = last u" using u(1) by (metis last_appendR)
    then show ?thesis using t hd lastc[OF u] by (simp add: join_def ts)
  qed
qed

lemma parse_join_tokens:
  assumes "ts \<noteq> []" "length ts \<le> 7" "list_all (\<lambda>t. t \<noteq> [] \<and> list_all in_class t) ts"
  shows "parse_location_string (PyStr (join ''_'' ts)) = ts @ replicate (7 - length ts) []"
proof -
  have e: "join ''_'' ts \<noteq> []" "\<not> is_space (hd (join ''_'' ts))"
    "\<not> is_space (last (join ''_'' ts))"
    using join_ends[OF assms(1,3)] by (simp_all add: in_class_def)
  have "strip (join ''_'' ts) = join ''_'' ts" by (rule strip_id[OF e])
  then show ?thesis using assms(2) by (simp add: parse_str findall_join[OF assms(3)])
qed

text \<open>
  C7. When all seven slots of a result of the parser are non-empty, joining them with single
  underscores and parsing the joined string gives the same seven slots again.
\<close>

theorem parse_join_idempotent:
  assumes "list_all (\<lambda>t. t \<noteq> []) (parse_location_string v)"
  shows "parse_location_string (PyStr (join ''_'' (parse_location_string v))) =
         parse_location_string v"
proof (cases v)
  case (PyStr s)
  let ?ts = "findall (strip s)"
  have p: "parse_location_string v = take 7 ?ts @ replicate (7 - length ?ts) []"
    by (simp add: PyStr parse_str)
  have full: "7 \<le> length ?ts"
  proof (rule ccontr)
    assume "\<not> 7 \<le> length ?ts"
    then have "[] \<in> set (parse_location_string v)" unfolding p by simp
    with assms show False by (auto simp: list_all_iff)
  qed
  then have p': "parse_location_string v = take 7 ?ts" unfolding p by simp
  have tok: "list_all (\<lambda>t. t \<noteq> [] \<and> list_all in_class t) (take 7 ?ts)"
    using findall_tokens[of "strip s"] by (auto simp: list_all_iff dest: in_set_takeD)
  have "parse_location_string (PyStr (join ''_'' (take 7 ?ts))) =
        take 7 ?ts @ replicate (7 - length (take 7 ?ts)) []"
    using full by (intro parse_join_tokens tok) auto
  then show ?thesis using full by (simp add: p')
next
  case PyNone
  then have "parse_location_string v = replicate 7 []"
    by (simp add: parse_location_string_def)
  with assms show ?thesis by (simp add: list_all_iff)
next
  case (PyOther b)
  then have "parse_location_string v = replicate 7 []"
    by (simp add: parse_location_string_def)
  with assms show ?thesis by (simp add: list_all_iff)
qed

theorem parse_join_idempotent_witness:
  "list_all (\<lambda>t. t \<noteq> []) (parse_location_string (PyStr '' L1_R2 C3__4 5 6 7 8'')) \<and>
   parse_location_string
     (PyStr (join ''_'' (parse_location_string (PyStr '' L1_R2 C3__4 5 6 7 8'')))) =
   [''L1'', ''R2'', ''C3'', ''4'', ''5'', ''6'', ''7'']"
proof -
  have v: "parse_location_string (PyStr '' L1_R2 C3__4 5 6 7 8'') =
           [''L1'', ''R2'', ''C3'', ''4'', ''5'', ''6'', ''7'']"
    by code_simp
  have h: "list_all (\<lambda>t. t \<noteq> []) (parse_location_string (PyStr '' L1_R2 C3__4 5 6 7 8''))"
    unfolding v by simp
  from parse_join_idempotent[OF h] show ?thesis using h v by simp
qed


section \<open>Column resolution\<close>

lemma first_match_str:
  "\<exists>r. first_match (substr_test p) (map Str names) = Inr r \<and>
       (r = None \<or> r \<in> Some ` set (map Str names))"
  by (induction names) (auto simp: substr_test_def)

lemma first_match_exact:
  "\<exists>r. first_match is_part_exact cols = Inr r \<and> (r = None \<or> r \<in> Some ` set cols)"
  by (induction cols) (auto simp: is_part_exact_def)

lemma next_gen_Inr:
  "first_match p cols = Inr r \<Longrightarrow>
   next_gen p cols d = Inr (case r of None \<Rightarrow> d | Some c \<Rightarrow> Some c)"
  by (simp add: next_gen_def and_then_def)

lemma next_gen_None:
  "first_match p cols = Inr r \<Longrightarrow> next_gen p cols None = Inr r"
  by (simp add: next_gen_def and_then_def split: option.splits)

lemma and_then_Inr: "and_then (Inr v) f = f v"
  by (simp add: and_then_def)

lemma resolve_columns_closed:
  assumes "cols \<noteq> []"
    and "first_match is_part_exact cols = Inr r1"
    and "first_match is_part_no cols = Inr r2"
    and "first_match is_name cols = Inr r3"
    and "first_match is_desc cols = Inr r4"
    and "first_match is_qty_and_bin cols = Inr r5"
    and "first_match is_qty_bin cols = Inr r6"
    and "first_match is_quantity cols = Inr r7"
    and "first_match is_qty cols = Inr r8"
    and "first_match is_loc cols = Inr r9"
    and "first_match is_storelocation cols = Inr r10"
    and "first_match is_store_loc cols = Inr r11"
    and "part = (case r2 of None \<Rightarrow> (case r1 of None \<Rightarrow> Some (cols ! 0) | Some c \<Rightarrow> Some c)
                 | Some c \<Rightarrow> Some c)"
    and "dsc = (case r4 of None \<Rightarrow> (case r3 of None \<Rightarrow> (if length cols > 1 then Some (cols ! 1) else part)
                                       | Some c \<Rightarrow> Some c)
                | Some c \<Rightarrow> Some c)"
    and "qty0 = (case r6 of None \<Rightarrow> r5 | Some c \<Rightarrow> Some c)"
  shows "resolve_columns cols =
     Inr \<lparr>part_no_col = part, desc_col = dsc,
          qty_bin_col = (if \<not> truthy qty0 then (case r8 of None \<Rightarrow> r7 | Some c \<Rightarrow> Some c)
                         else qty0),
          loc_col = (case r9 of None \<Rightarrow> (if length cols > 2 then Some (cols ! 2) else dsc)
                     | Some c \<Rightarrow> Some c),
          store_loc_col = (case r11 of None \<Rightarrow> r10 | Some c \<Rightarrow> Some c)\<rparr>"
proof -
  have lc: "\<And>a f. (case cols of [] \<Rightarrow> a | y # ys \<Rightarrow> f y) = f (cols ! 0)"
    using assms(1) by (cases cols) simp_all
  show ?thesis
    unfolding resolve_columns_def lc assms(13-15)
    apply (simp only: next_gen_None[OF assms(6)] next_gen_None[OF assms(8)]
        next_gen_None[OF assms(11)] and_then_Inr)
    apply (simp only: next_gen_Inr[OF assms(2)] next_gen_Inr[OF assms(3)] next_gen_Inr[OF assms(4)]
        next_gen_Inr[OF assms(5)] next_gen_Inr[OF assms(7)]
        next_gen_Inr[OF assms(9)] next_gen_Inr[OF assms(10)]
        next_gen_Inr[OF assms(12)] and_then_Inr)
    apply (simp add: and_then_Inr)
    done
qed

lemma scan_str:
  assumes "p = substr_test q" "cols = map Str names"
  obtains r where "first_match p cols = Inr r" "r = None \<or> r \<in> Some ` set cols"
  using first_match_str[of q names] unfolding assms by blast

lemma resolve_columns_ok:
  assumes "names \<noteq> []" "cols = map Str names"
  shows "\<exists>m. resolve_columns cols = Inr m \<and>
     part_no_col m \<in> Some ` set cols \<and> desc_col m \<in> Some ` set cols \<and>
     loc_col m \<in> Some ` set cols \<and>
     (qty_bin_col m = None \<or> qty_bin_col m \<in> Some ` set cols) \<and>
     (store_loc_col m = None \<or> store_loc_col m \<in> Some ` set cols) \<and>
     (first_match is_part_no cols = Inr None \<and> first_match is_part_exact cols = Inr None \<longrightarrow>
        part_no_col m = Some (cols ! 0)) \<and>
     (first_match is_desc cols = Inr None \<and> first_match is_name cols = Inr None \<longrightarrow>
        desc_col m = (if length cols > 1 then Some (cols ! 1) else part_no_col m)) \<and>
     (first_match is_loc cols = Inr None \<longrightarrow>
        loc_col m = (if length cols > 2 then Some (cols ! 2) else desc_col m)) \<and>
     (first_match is_qty_bin cols = Inr None \<and> first_match is_qty_and_bin cols = Inr None \<and>
      first_match is_qty cols = Inr None \<and> first_match is_quantity cols = Inr None \<longrightarrow>
        qty_bin_col m = None) \<and>
     (first_match is_store_loc cols = Inr None \<and> first_match is_storelocation cols = Inr None \<longrightarrow>
        store_loc_col m = None)"
proof -
  have ne: "cols \<noteq> []" using assms by simp
  note c = assms(2)
  obtain r1 where r1: "first_match is_part_exact cols = Inr r1" "r1 = None \<or> r1 \<in> Some ` set cols"
    using first_match_exact[of cols] by blast
  obtain r2 where r2: "first_match is_part_no cols = Inr r2" "r2 = None \<or> r2 \<in> Some ` set cols"
    by (rule scan_str[OF is_part_no_def c])
  obtain r3 where r3: "first_match is_name cols = Inr r3" "r3 = None \<or> r3 \<in> Some ` set cols"
    by (rule scan_str[OF is_name_def c])
  obtain r4 where r4: "first_match is_desc cols = Inr r4" "r4 = None \<or> r4 \<in> Some ` set cols"
    by (rule scan_str[OF is_desc_def c])
  obtain r5 where r5: "first_match is_qty_and_bin cols = Inr r5" "r5 = None \<or> r5 \<in> Some ` set cols"
    by (rule scan_str[OF is_qty_and_bin_def c])
  obtain r6 where r6: "first_match is_qty_bin cols = Inr r6" "r6 = None \<or> r6 \<in> Some ` set cols"
    by (rule scan_str[OF is_qty_bin_def c])
  obtain r7 where r7: "first_match is_quantity cols = Inr r7" "r7 = None \<or> r7 \<in> Some ` set cols"
    by (rule scan_str[OF is_quantity_def c])
  obtain r8 where r8: "first_match is_qty cols = Inr r8" "r8 = None \<or> r8 \<in> Some ` set cols"
    by (rule scan_str[OF is_qty_def c])
  obtain r9 where r9: "first_match is_loc cols = Inr r9" "r9 = None \<or> r9 \<in> Some ` set cols"
    by (rule scan_str[OF is_loc_def c])
  obtain r10 where r10: "first_match is_storelocation cols = Inr r10" "r10 = None \<or> r10 \<in> Some ` set cols"
    by (rule scan_str[OF is_storelocation_def c])
  obtain r11 where r11: "first_match is_store_loc cols = Inr r11" "r11 = None \<or> r11 \<in> Some ` set cols"
    by (rule scan_str[OF is_store_loc_def c])
  define part where "part = (case r2 of None \<Rightarrow> (case r1 of None \<Rightarrow> Some (cols ! 0) | Some c \<Rightarrow> Some c)
                 | Some c \<Rightarrow> Some c)"
  define dsc where "dsc = (case r4 of None \<Rightarrow> (case r3 of None \<Rightarrow> (if length cols > 1 then Some (cols ! 1) else part)
                                       | Some c \<Rightarrow> Some c)
                | Some c \<Rightarrow> Some c)"
  define qty0 where "qty0 = (case r6 of None \<Rightarrow> r5 | Some c \<Rightarrow> Some c)"
  define lc where "lc = (case r9 of None \<Rightarrow> (if length cols > 2 then Some (cols ! 2) else dsc)
                     | Some c \<Rightarrow> Some c)"
  define qty where "qty = (if \<not> truthy qty0 then (case r8 of None \<Rightarrow> r7 | Some c \<Rightarrow> Some c) else qty0)"
  define st where "st = (case r11 of None \<Rightarrow> r10 | Some c \<Rightarrow> Some c)"
  have res: "resolve_columns cols =
     Inr \<lparr>part_no_col = part, desc_col = dsc, qty_bin_col = qty, loc_col = lc, store_loc_col = st\<rparr>"
    unfolding qty_def lc_def st_def
    by (rule resolve_columns_closed[OF ne r1(1) r2(1) r3(1) r4(1) r5(1) r6(1) r7(1) r8(1) r9(1)
          r10(1) r11(1) part_def dsc_def qty0_def])
  have n0: "Some (cols ! 0) \<in> Some ` set cols" using ne by simp
  have n1: "length cols > 1 \<Longrightarrow> Some (cols ! 1) \<in> Some ` set cols" by simp
  have n2: "length cols > 2 \<Longrightarrow> Some (cols ! 2) \<in> Some ` set cols" by simp
  have p_in: "part \<in> Some ` set cols"
    unfolding part_def using r1(2) r2(2) n0 by (auto split: option.splits)
  have d_in: "dsc \<in> Some ` set cols"
    unfolding dsc_def using r3(2) r4(2) n1 p_in by (auto split: option.splits)
  have l_in: "lc \<in> Some ` set cols"
    unfolding lc_def using r9(2) n2 d_in by (auto split: option.splits)
  have q_in: "qty = None \<or> qty \<in> Some ` set cols"
    unfolding qty_def qty0_def using r5(2) r6(2) r7(2) r8(2) by (auto split: option.splits)
  have s_in: "st = None \<or> st \<in> Some ` set cols"
    unfolding st_def using r10(2) r11(2) by (auto split: option.splits)
  have fb_p: "first_match is_part_no cols = Inr None \<and> first_match is_part_exact cols = Inr None \<longrightarrow>
        part = Some (cols ! 0)"
    unfolding part_def using r1(1) r2(1) by auto
  have fb_d: "first_match is_desc cols = Inr None \<and> first_match is_name cols = Inr None \<longrightarrow>
        dsc = (if length cols > 1 then Some (cols ! 1) else part)"
    unfolding dsc_def using r3(1) r4(1) by auto
  have fb_l: "first_match is_loc cols = Inr None \<longrightarrow>
        lc = (if length cols > 2 then Some (cols ! 2) else dsc)"
    unfolding lc_def using r9(1) by auto
  have fb_q: "first_match is_qty_bin cols = Inr None \<and> first_match is_qty_and_bin cols = Inr None \<and>
      first_match is_qty cols = Inr None \<and> first_match is_quantity cols = Inr None \<longrightarrow> qty = None"
    unfolding qty_def qty0_def using r5(1) r6(1) r7(1) r8(1) by (auto simp: truthy_def)
  have fb_s: "first_match is_store_loc cols = Inr None \<and> first_match is_storelocation cols = Inr None \<longrightarrow>
        st = None"
    unfolding st_def using r10(1) r11(1) by auto
  show ?thesis
    unfolding res using p_in d_in l_in q_in s_in fb_p fb_d fb_l fb_q fb_s by simp
qed

lemma upper_label_Str: "map upper_label (map Str names) = map Str (map upper names)"
  by (simp add: upper_label_def)

text \<open>
  C3. For the columns \<open>Part Number\<close>, \<open>Description\<close>, \<open>Location\<close>, \<open>Qty/Bin\<close>,
  \<open>Store Location\<close> the resolver maps part_no to the column \<open>Part Number\<close>, description to
  \<open>Description\<close>, quantity_per_bin to \<open>Qty/Bin\<close>, line_location to \<open>Location\<close> and
  store_location to \<open>Store Location\<close>. The names are matched without regard to case: the
  mapping holds each column under its upper-cased label, the label the column carries in the
  frame from then on.
\<close>

theorem resolve_columns_standard_names:
  "resolve_columns (map upper_label [Str ''Part Number'', Str ''Description'', Str ''Location'',
                                      Str ''Qty/Bin'', Str ''Store Location'']) =
     Inr \<lparr>part_no_col = Some (upper_label (Str ''Part Number'')),
          desc_col = Some (upper_label (Str ''Description'')),
          qty_bin_col = Some (upper_label (Str ''Qty/Bin'')),
          loc_col = Some (upper_label (Str ''Location'')),
          store_loc_col = Some (upper_label (Str ''Store Location''))\<rparr> \<and>
   map upper_label [Str ''Part Number'', Str ''Description'', Str ''Location'',
                    Str ''Qty/Bin'', Str ''Store Location''] =
     [Str ''PART NUMBER'', Str ''DESCRIPTION'', Str ''LOCATION'', Str ''QTY/BIN'',
      Str ''STORE LOCATION'']"
  by code_simp

text \<open>
  C4. For every list of column names with at least one column the resolution raises no error.
  part_no, description and line_location each resolve to one of the columns; where no name
  matches, part_no is column 0, description is column 1 if there is one and the part_no
  column otherwise, line_location is column 2 if there is one and the description column
  otherwise. quantity_per_bin and store_location are \<open>None\<close> where no name matches. For the
  columns \<open>A\<close>, \<open>B\<close>, \<open>C\<close> the mapping is part_no \<open>A\<close>, description \<open>B\<close>, line_location \<open>C\<close>,
  and \<open>None\<close> for the other two.
\<close>

theorem resolve_columns_total:
  assumes "names \<noteq> []" "cols = map upper_label (map Str names)"
  shows "(\<exists>m. resolve_columns cols = Inr m \<and>
     part_no_col m \<in> Some ` set cols \<and> desc_col m \<in> Some ` set cols \<and>
     loc_col m \<in> Some ` set cols \<and>
     (qty_bin_col m = None \<or> qty_bin_col m \<in> Some ` set cols) \<and>
     (store_loc_col m = None \<or> store_loc_col m \<in> Some ` set cols) \<and>
     (first_match is_part_no cols = Inr None \<and> first_match is_part_exact cols = Inr None \<longrightarrow>
        part_no_col m = Some (cols ! 0)) \<and>
     (first_match is_desc cols = Inr None \<and> first_match is_name cols = Inr None \<longrightarrow>
        desc_col m = (if length cols > 1 then Some (cols ! 1) else part_no_col m)) \<and>
     (first_match is_loc cols = Inr None \<longrightarrow>
        loc_col m = (if length cols > 2 then Some (cols ! 2) else desc_col m)) \<and>
     (first_match is_qty_bin cols = Inr None \<and> first_match is_qty_and_bin cols = Inr None \<and>
      first_match is_qty cols = Inr None \<and> first_match is_quantity cols = Inr None \<longrightarrow>
        qty_bin_col m = None) \<and>
     (first_match is_store_loc cols = Inr None \<and> first_match is_storelocation cols = Inr None \<longrightarrow>
        store_loc_col m = None)) \<and>
   resolve_columns (map upper_label [Str ''A'', Str ''B'', Str ''C'']) =
     Inr \<lparr>part_no_col = Some (Str ''A''), desc_col = Some (Str ''B''),
          qty_bin_col = None, loc_col = Some (Str ''C''), store_loc_col = None\<rparr>"
proof -
  have cols: "cols = map Str (map upper names)"
    unfolding assms(2) by (rule upper_label_Str)
  have ne: "map upper names \<noteq> []" using assms(1) by simp
  have abc: "resolve_columns (map upper_label [Str ''A'', Str ''B'', Str ''C'']) =
     Inr \<lparr>part_no_col = Some (Str ''A''), desc_col = Some (Str ''B''),
          qty_bin_col = None, loc_col = Some (Str ''C''), store_loc_col = None\<rparr>"
    by code_simp
  show ?thesis
    using resolve_columns_ok[OF ne cols] abc by blast
qed

theorem resolve_columns_total_witness:
  "[''Item''] \<noteq> [] \<and>
   (\<exists>m. resolve_columns (map upper_label (map Str [''Item''])) = Inr m \<and>
        part_no_col m = Some (Str ''ITEM'') \<and> desc_col m = Some (Str ''ITEM'') \<and>
        loc_col m = Some (Str ''ITEM'') \<and> qty_bin_col m = None \<and> store_loc_col m = None)"
proof -
  have c: "map upper_label (map Str [''Item'']) = [Str ''ITEM'']"
    by code_simp
  have n: "first_match is_part_no [Str ''ITEM''] = Inr None"
    "first_match is_part_exact [Str ''ITEM''] = Inr None"
    "first_match is_desc [Str ''ITEM''] = Inr None"
    "first_match is_name [Str ''ITEM''] = Inr None"
    "first_match is_loc [Str ''ITEM''] = Inr None"
    "first_match is_qty_bin [Str ''ITEM''] = Inr None"
    "first_match is_qty_and_bin [Str ''ITEM''] = Inr None"
    "first_match is_qty [Str ''ITEM''] = Inr None"
    "first_match is_quantity [Str ''ITEM''] = Inr None"
    "first_match is_store_loc [Str ''ITEM''] = Inr None"
    "first_match is_storelocation [Str ''ITEM''] = Inr None"
    by code_simp+
  have ne: "[''Item''] \<noteq> []" by simp
  from resolve_columns_total[OF ne c [symmetric]]
  show ?thesis unfolding c using n by auto
qed

text \<open>
  C10. The resolver does not keep the roles apart: a label that contains both \<open>STORE\<close> and
  \<open>LOC\<close> also passes the test for line_location, and for the single column
  \<open>STORE LOCATION\<close> both line_location and store_location resolve to that column.
\<close>

theorem line_and_store_location_coincide:
  "(is_store_loc col = Inr True \<longrightarrow> is_loc col = Inr True) \<and>
   resolve_columns (map upper_label [Str ''STORE LOCATION'']) =
     Inr \<lparr>part_no_col = Some (Str ''STORE LOCATION''), desc_col = Some (Str ''STORE LOCATION''),
          qty_bin_col = None, loc_col = Some (Str ''STORE LOCATION''),
          store_loc_col = Some (Str ''STORE LOCATION'')\<rparr> \<and>
   (\<exists>cols m c. resolve_columns cols = Inr m \<and> loc_col m = Some c \<and> store_loc_col m = Some c)"
proof -
  have a: "is_store_loc col = Inr True \<longrightarrow> is_loc col = Inr True"
    by (cases col) (auto simp: is_store_loc_def is_loc_def substr_test_def)
  have b: "resolve_columns (map upper_label [Str ''STORE LOCATION'']) =
     Inr \<lparr>part_no_col = Some (Str ''STORE LOCATION''), desc_col = Some (Str ''STORE LOCATION''),
          qty_bin_col = None, loc_col = Some (Str ''STORE LOCATION''),
          store_loc_col = Some (Str ''STORE LOCATION'')\<rparr>"
    by code_simp
  have "\<exists>cols m c. resolve_columns cols = Inr m \<and> loc_col m = Some c \<and> store_loc_col m = Some c"
  proof (intro exI conjI)
    show "resolve_columns (map upper_label [Str ''STORE LOCATION'']) =
       Inr \<lparr>part_no_col = Some (Str ''STORE LOCATION''), desc_col = Some (Str ''STORE LOCATION''),
            qty_bin_col = None, loc_col = Some (Str ''STORE LOCATION''),
            store_loc_col = Some (Str ''STORE LOCATION'')\<rparr>"
      by (rule b)
  qed simp_all
  with a b show ?thesis by blast
qed

theorem line_and_store_location_coincide_witness:
  "is_store_loc (Str ''STORE LOCATION'') = Inr True \<and> is_loc (Str ''STORE LOCATION'') = Inr True"
proof -
  have h: "is_store_loc (Str ''STORE LOCATION'') = Inr True" by code_simp
  from line_and_store_location_coincide[of "Str ''STORE LOCATION''"] h
  show ?thesis by blast
qed


section \<open>One sticker\<close>


lemma row_get_ok:
  assumes "c \<in> set cols" "length row = length cols"
  shows "\<exists>v. row_get cols row (Some c) = Inr v"
proof -
  have "map fst (zip cols row) = cols" using assms(2) by simp
  then have "fst ` set (zip cols row) = set cols" by (metis set_map)
  then have "c \<in> fst ` set (zip cols row)" using assms(1) by simp
  then have "map_of (zip cols row) c \<noteq> None" by (simp add: map_of_eq_None_iff)
  then show ?thesis by (auto simp: row_get_def)
qed

lemma extract_fields_ok:
  assumes "part_no_col m \<in> Some ` set cols" "desc_col m \<in> Some ` set cols"
    and "length row = length cols"
  shows "\<exists>f. extract_fields cols m row = Inr f"
proof -
  have all: "\<And>c. in_row cols c \<Longrightarrow> \<exists>v. row_get cols row c = Inr v"
    using row_get_ok[OF _ assms(3)] by (auto simp: in_row_def split: option.splits)
  obtain p where p: "row_get cols row (part_no_col m) = Inr p"
    using all[of "part_no_col m"] assms(1) by (auto simp: in_row_def)
  obtain d where d: "row_get cols row (desc_col m) = Inr d"
    using all[of "desc_col m"] assms(2) by (auto simp: in_row_def)
  have q: "\<exists>s. (if truthy (qty_bin_col m) \<and> in_row cols (qty_bin_col m)
               then and_then (row_get cols row (qty_bin_col m))
                      (\<lambda>q. Inr (if cell_notna q then cell_str q else []))
               else Inr []) = Inr s"
    using all[of "qty_bin_col m"] by (auto simp: and_then_def)
  have l: "\<exists>s. (if truthy (loc_col m) \<and> in_row cols (loc_col m)
               then and_then (row_get cols row (loc_col m)) (\<lambda>l. Inr (cell_str l))
               else Inr []) = Inr s"
    using all[of "loc_col m"] by (auto simp: and_then_def)
  have s: "\<exists>s. (if truthy (store_loc_col m) \<and> in_row cols (store_loc_col m)
               then and_then (row_get cols row (store_loc_col m)) (\<lambda>l. Inr (cell_str l))
               else Inr []) = Inr s"
    using all[of "store_loc_col m"] by (auto simp: and_then_def)
  from q l s obtain qs ls ss where
    "(if truthy (qty_bin_col m) \<and> in_row cols (qty_bin_col m)
               then and_then (row_get cols row (qty_bin_col m))
                      (\<lambda>q. Inr (if cell_notna q then cell_str q else []))
               else Inr []) = Inr qs"
    "(if truthy (loc_col m) \<and> in_row cols (loc_col m)
               then and_then (row_get cols row (loc_col m)) (\<lambda>l. Inr (cell_str l))
               else Inr []) = Inr ls"
    "(if truthy (store_loc_col m) \<and> in_row cols (store_loc_col m)
               then and_then (row_get cols row (store_loc_col m)) (\<lambda>l. Inr (cell_str l))
               else Inr []) = Inr ss"
    by blast
  then show ?thesis
    unfolding extract_fields_def by (simp only: p d and_then_Inr) blast
qed

text \<open>The flowables that one row contributes to the story.\<close>

lemma sticker_loop_story:
  assumes "list_all (\<lambda>r. \<exists>f. extract_fields cols m (snd r) = Inr f) rs"
    and "list_all (\<lambda>r. case fst r of IntLabel i \<Rightarrow> True | TextLabel t \<Rightarrow> False) rs"
  shows "sticker_loop qr_lib cols m rs acc df =
     (df, Inr (acc @ concat (map (\<lambda>r.
        [Spacer, FinalTable (compose_sticker
            (generate_qr_code qr_lib (qr_data (projr (extract_fields cols m (snd r)))))
            (projr (extract_fields cols m (snd r))))] @
        (if index_lt (fst r) (int (length (rows df)) - 1) = Inr True then [PageBreak] else []))
        rs)))"
  using assms
proof (induction rs arbitrary: acc)
  case Nil
  show ?case by simp
next
  case (Cons r rs)
  obtain index row where r: "r = (index, row)" by (cases r)
  obtain f where f: "extract_fields cols m row = Inr f" using Cons.prems(1) r by auto
  obtain i where i: "index = IntLabel i"
    using Cons.prems(2) r by (cases index) simp_all
  have rest: "list_all (\<lambda>r. \<exists>f. extract_fields cols m (snd r) = Inr f) rs"
    "list_all (\<lambda>r. case fst r of IntLabel i \<Rightarrow> True | TextLabel t \<Rightarrow> False) rs"
    using Cons.prems by simp_all
  show ?case
    by (simp add: r i make_sticker_def f and_then_def index_lt_def Let_def Cons.IH[OF rest])
qed

text \<open>No round of the loop changes the frame.\<close>

lemma sticker_loop_frame: "fst (sticker_loop qr_lib cols m rs acc df) = df"
proof (induction rs arbitrary: acc)
  case Nil
  show ?case by simp
next
  case (Cons r rs)
  obtain index row where r: "r = (index, row)" by (cases r)
  show ?case
    by (simp add: r Let_def Cons.IH split: sum.splits)
qed

lemma stickers_append: "stickers (xs @ ys) = stickers xs @ stickers ys"
  by (simp add: stickers_def)

lemma stickers_concat_rows:
  "stickers (concat (map (\<lambda>r. Spacer # FinalTable (g r) # (if b r then [PageBreak] else [])) rs)) =
   map g rs"
  by (induction rs) (simp_all add: stickers_def)

lemma compose_sticker_placeholder:
  "compose_sticker None f =
   (compose_sticker img f)\<lparr>qr_table := QrText (Paragraph ''QR'' qr_placeholder_style)\<rparr>"
  by (simp add: compose_sticker_def)

text \<open>
  C5. In every sticker the description cell holds the first 30 characters of the description
  followed by \<open>...\<close> when the description is longer than 30 characters, and the description
  as it is when it has 30 characters or fewer.
\<close>

theorem description_truncated:
  assumes "make_sticker qr_lib cols m row = Inr st"
  shows "\<exists>f d. extract_fields cols m row = Inr f \<and>
     row_get cols row (desc_col m) = Inr d \<and> desc f = cell_str d \<and>
     (length (desc f) > 30 \<longrightarrow>
        main_table_data st ! 1 = (''Desc'', Paragraph (take 30 (desc f) @ ''...'') desc_style)) \<and>
     (length (desc f) \<le> 30 \<longrightarrow>
        main_table_data st ! 1 = (''Desc'', Paragraph (desc f) desc_style))"
proof -
  obtain f where f: "extract_fields cols m row = Inr f"
    and st: "st = compose_sticker (generate_qr_code qr_lib (qr_data f)) f"
    using assms by (auto simp: make_sticker_def and_then_def split: sum.splits)
  obtain d where d: "row_get cols row (desc_col m) = Inr d" "desc f = cell_str d"
    using f unfolding extract_fields_def and_then_def
    by (auto split: sum.splits if_splits)
  show ?thesis
    using f d by (simp add: st compose_sticker_def)
qed

theorem description_truncated_witness:
  "(\<exists>st. make_sticker Inr [Str ''PART'', Str ''DESC'']
            \<lparr>part_no_col = Some (Str ''PART''), desc_col = Some (Str ''DESC''),
             qty_bin_col = None, loc_col = None, store_loc_col = None\<rparr>
            [\<lparr>cell_notna = True, cell_str = ''P1''\<rparr>,
             \<lparr>cell_notna = True, cell_str = ''ABCDEFGHIJKLMNOPQRSTUVWXYZ01234''\<rparr>] = Inr st \<and>
         main_table_data st ! 1 =
           (''Desc'', Paragraph ''ABCDEFGHIJKLMNOPQRSTUVWXYZ0123...'' desc_style)) \<and>
   (\<exists>st. make_sticker Inr [Str ''PART'', Str ''DESC'']
            \<lparr>part_no_col = Some (Str ''PART''), desc_col = Some (Str ''DESC''),
             qty_bin_col = None, loc_col = None, store_loc_col = None\<rparr>
            [\<lparr>cell_notna = True, cell_str = ''P1''\<rparr>,
             \<lparr>cell_notna = True, cell_str = ''ABCDEFGHIJKLMNOPQRSTUVWXYZ0123''\<rparr>] = Inr st \<and>
         main_table_data st ! 1 =
           (''Desc'', Paragraph ''ABCDEFGHIJKLMNOPQRSTUVWXYZ0123'' desc_style))"
proof -
  let ?cols = "[Str ''PART'', Str ''DESC'']"
  let ?m = "\<lparr>part_no_col = Some (Str ''PART''), desc_col = Some (Str ''DESC''),
             qty_bin_col = None, loc_col = None, store_loc_col = None\<rparr>"
  let ?long = "[\<lparr>cell_notna = True, cell_str = ''P1''\<rparr>,
             \<lparr>cell_notna = True, cell_str = ''ABCDEFGHIJKLMNOPQRSTUVWXYZ01234''\<rparr>]"
  let ?short = "[\<lparr>cell_notna = True, cell_str = ''P1''\<rparr>,
             \<lparr>cell_notna = True, cell_str = ''ABCDEFGHIJKLMNOPQRSTUVWXYZ0123''\<rparr>]"
  have ex: "extract_fields ?cols ?m ?long =
      Inr \<lparr>part_no = ''P1'', desc = ''ABCDEFGHIJKLMNOPQRSTUVWXYZ01234'', qty_bin = [],
           location_str = [], store_location = []\<rparr>"
    "extract_fields ?cols ?m ?short =
      Inr \<lparr>part_no = ''P1'', desc = ''ABCDEFGHIJKLMNOPQRSTUVWXYZ0123'', qty_bin = [],
           location_str = [], store_location = []\<rparr>"
    by code_simp+
  obtain s1 where s1: "make_sticker Inr ?cols ?m ?long = Inr (s1 :: string sticker)"
    by (simp add: make_sticker_def ex and_then_def)
  obtain s2 where s2: "make_sticker Inr ?cols ?m ?short = Inr (s2 :: string sticker)"
    by (simp add: make_sticker_def ex and_then_def)
  from description_truncated[OF s1] have
    "main_table_data s1 ! 1 = (''Desc'', Paragraph ''ABCDEFGHIJKLMNOPQRSTUVWXYZ0123...'' desc_style)"
    unfolding ex by auto
  moreover from description_truncated[OF s2] have
    "main_table_data s2 ! 1 = (''Desc'', Paragraph ''ABCDEFGHIJKLMNOPQRSTUVWXYZ0123'' desc_style)"
    unfolding ex by auto
  ultimately show ?thesis using s1 s2 by blast
qed


section \<open>The document\<close>

lemma generate_frame:
  "fst (generate_sticker_labels qr_lib doc_build df) = df\<lparr>columns := map upper_label (columns df)\<rparr>"
proof -
  let ?df = "df\<lparr>columns := map upper_label (columns df)\<rparr>"
  show ?thesis
  proof (cases "resolve_columns (columns ?df)")
    case (Inl e)
    then show ?thesis by (simp add: generate_sticker_labels_def Let_def)
  next
    case (Inr m)
    obtain d looped where l: "sticker_loop qr_lib (columns ?df) m (rows ?df) [] ?df = (d, looped)"
      by (cases "sticker_loop qr_lib (columns ?df) m (rows ?df) [] ?df")
    have "d = ?df" using sticker_loop_frame[of qr_lib "columns ?df" m "rows ?df" "[]" ?df] l by simp
    then show ?thesis using Inr l by (simp add: generate_sticker_labels_def Let_def)
  qed
qed

lemma generate_story:
  assumes "names \<noteq> []" "columns df = map Str names" "well_formed df" "int_index df"
    and "cols = map upper_label (columns df)"
  shows "\<exists>m. resolve_columns cols = Inr m \<and>
     list_all (\<lambda>r. \<exists>f. extract_fields cols m (snd r) = Inr f) (rows df) \<and>
     snd (generate_sticker_labels qr_lib doc_build df) =
       (let story = concat (map (\<lambda>r.
          [Spacer, FinalTable (compose_sticker
              (generate_qr_code qr_lib (qr_data (projr (extract_fields cols m (snd r)))))
              (projr (extract_fields cols m (snd r))))] @
          (if index_lt (fst r) (int (length (rows df)) - 1) = Inr True then [PageBreak] else []))
          (rows df))
        in case doc_build story of Inl e \<Rightarrow> Inr None | Inr u \<Rightarrow> Inr (Some story))"
proof -
  have cols: "cols = map Str (map upper names)"
    unfolding assms(5) assms(2) by (rule upper_label_Str)
  have ne: "map upper names \<noteq> []" using assms(1) by simp
  obtain m where m: "resolve_columns cols = Inr m"
    "part_no_col m \<in> Some ` set cols" "desc_col m \<in> Some ` set cols"
    using resolve_columns_ok[OF ne cols] by blast
  have len: "length cols = length (columns df)" by (simp add: assms(5))
  have ex: "list_all (\<lambda>r. \<exists>f. extract_fields cols m (snd r) = Inr f) (rows df)"
    using assms(3) extract_fields_ok[OF m(2,3)]
    by (simp add: well_formed_def list_all_iff len)
  have ix: "list_all (\<lambda>r. case fst r of IntLabel i \<Rightarrow> True | TextLabel t \<Rightarrow> False) (rows df)"
    using assms(4) by (simp add: int_index_def)
  show ?thesis
    using m(1) ex
    by (simp add: generate_sticker_labels_def Let_def assms(5)[symmetric] and_then_def
        sticker_loop_story[OF ex ix])
qed

lemma pages_of_story:
  assumes "map fst rs = map (\<lambda>k. IntLabel (int k)) [i..<i + length rs]" "n = i + length rs"
  shows "pages [] (concat (map (\<lambda>r. Spacer # FinalTable (g r) #
             (if index_lt (fst r) (int n - 1) = Inr True then [PageBreak] else [])) rs)) =
         map (\<lambda>r. [Spacer, FinalTable (g r)]) rs"
  using assms
proof (induction rs arbitrary: i)
  case Nil
  show ?case by simp
next
  case (Cons r rs)
  have up: "[i..<i + length (r # rs)] = i # [Suc i..<Suc i + length rs]"
  proof -
    have "i < i + length (r # rs)" by simp
    then have "[i..<i + length (r # rs)] = i # [Suc i..<i + length (r # rs)]"
      by (rule upt_conv_Cons)
    then show ?thesis by simp
  qed
  from Cons.prems(1) have r: "fst r = IntLabel (int i)"
    and rest: "map fst rs = map (\<lambda>k. IntLabel (int k)) [Suc i..<Suc i + length rs]"
    unfolding up by simp_all
  have n: "n = Suc i + length rs" using Cons.prems(2) by simp
  show ?case
  proof (cases "rs = []")
    case True
    then show ?thesis using r Cons.prems(2) by (simp add: index_lt_def)
  next
    case False
    then have "index_lt (fst r) (int n - 1) = Inr True"
      using r n by (cases rs) (simp_all add: index_lt_def)
    then show ?thesis using Cons.IH[OF rest n] by simp
  qed
qed

text \<open>
  When the index labels of the rows are their positions \<open>0, 1, ...\<close>, as for a frame with the
  default index, the story has one page per row, each page holding the spacer and the table of
  its row.
\<close>

lemma default_index_pages:
  assumes "names \<noteq> []" "columns df = map Str names" "unique_labels df" "well_formed df"
    and "map fst (rows df) = map (\<lambda>k. IntLabel (int k)) [0..<length (rows df)]"
    and "\<And>story. doc_build story = Inr ()"
  shows "\<exists>story. snd (generate_sticker_labels qr_lib doc_build df) = Inr (Some story) \<and>
     length (pages [] story) = length (rows df) \<and>
     pages [] story = map (\<lambda>s. [Spacer, FinalTable s]) (stickers story)"
proof -
  define cols where "cols = map upper_label (columns df)"
  have ix: "int_index df"
  proof -
    have "\<forall>l \<in> set (map fst (rows df)). case l of IntLabel i \<Rightarrow> True | TextLabel t \<Rightarrow> False"
      unfolding assms(5) by auto
    then show ?thesis by (simp add: int_index_def list_all_iff)
  qed
  obtain m where m: "resolve_columns cols = Inr m"
    using generate_story[OF assms(1,2,4) ix cols_def] by blast
  define g where "g = (\<lambda>r :: index_label \<times> cell list. compose_sticker
              (generate_qr_code qr_lib (qr_data (projr (extract_fields cols m (snd r)))))
              (projr (extract_fields cols m (snd r))))"
  define story where "story = concat (map (\<lambda>r. Spacer # FinalTable (g r) #
             (if index_lt (fst r) (int (length (rows df)) - 1) = Inr True then [PageBreak] else []))
             (rows df))"
  have run: "snd (generate_sticker_labels qr_lib doc_build df) = Inr (Some story)"
    using generate_story[OF assms(1,2,4) ix cols_def, of qr_lib doc_build] m
    by (auto simp: assms(6) Let_def story_def g_def)
  have pg: "pages [] story = map (\<lambda>r. [Spacer, FinalTable (g r)]) (rows df)"
    unfolding story_def by (rule pages_of_story) (simp_all add: assms(5))
  have st: "stickers story = map g (rows df)"
    unfolding story_def by (rule stickers_concat_rows)
  show ?thesis using run pg st by (simp add: comp_def)
qed

lemma relabelled_index_story:
  "snd (generate_sticker_labels (\<lambda>s. Inr s) (\<lambda>s. Inr ())
     \<lparr>columns = [Str ''Part No'', Str ''Description''],
      rows = [(IntLabel 1, [\<lparr>cell_notna = True, cell_str = ''P1''\<rparr>,
                            \<lparr>cell_notna = True, cell_str = ''D1''\<rparr>]),
              (IntLabel 0, [\<lparr>cell_notna = True, cell_str = ''P2''\<rparr>,
                            \<lparr>cell_notna = True, cell_str = ''D2''\<rparr>])]\<rparr>)
   = Inr (Some [Spacer,
        FinalTable (compose_sticker
          (Some (qr_data \<lparr>part_no = ''P1'', desc = ''D1'', qty_bin = [], location_str = ''D1'',
                          store_location = []\<rparr>))
          \<lparr>part_no = ''P1'', desc = ''D1'', qty_bin = [], location_str = ''D1'',
           store_location = []\<rparr>),
        Spacer,
        FinalTable (compose_sticker
          (Some (qr_data \<lparr>part_no = ''P2'', desc = ''D2'', qty_bin = [], location_str = ''D2'',
                          store_location = []\<rparr>))
          \<lparr>part_no = ''P2'', desc = ''D2'', qty_bin = [], location_str = ''D2'',
           store_location = []\<rparr>),
        PageBreak])"
  by code_simp

text \<open>
  C2. The page break after a sticker is decided by the row's index label, not by its
  position. For a frame of two rows whose index labels are 1 and 0 (a CSV file whose data
  lines have one more field than the header line, the extra first field being the index) the
  story has no page break after the first sticker and one after the last, so both stickers
  are on one page.
\<close>

theorem page_break_follows_index_label:
  "\<exists>a b. snd (generate_sticker_labels (\<lambda>s. Inr s) (\<lambda>s. Inr ())
     \<lparr>columns = [Str ''Part No'', Str ''Description''],
      rows = [(IntLabel 1, [\<lparr>cell_notna = True, cell_str = ''P1''\<rparr>,
                            \<lparr>cell_notna = True, cell_str = ''D1''\<rparr>]),
              (IntLabel 0, [\<lparr>cell_notna = True, cell_str = ''P2''\<rparr>,
                            \<lparr>cell_notna = True, cell_str = ''D2''\<rparr>])]\<rparr>)
     = Inr (Some [Spacer, FinalTable a, Spacer, FinalTable b, PageBreak]) \<and>
   pages [] [Spacer, FinalTable a, Spacer, FinalTable b, PageBreak] =
     [[Spacer, FinalTable a, Spacer, FinalTable b]]"
  unfolding relabelled_index_story by simp

text \<open>
  C6. A failure of the QR library on the data of a row is absorbed. Take a frame on which the
  program raises no error of its own: string labels, at least one, pairwise different after
  the upper-casing, one cell per column in every row, integer index labels. Whatever the QR
  library does, the run reaches the build with a story of one sticker per row, each composed
  from the fields of its own row and the outcome of the library on that row's data alone, and
  returns the document whenever the build returns. Where the library raises, the sticker is
  the one with the image but for the QR cell, which holds the text \<open>QR\<close> in a bold, centred
  style.
\<close>

theorem qr_failure_absorbed:
  assumes "names \<noteq> []" "columns df = map Str names" "unique_labels df" "well_formed df"
    "int_index df"
  shows "\<exists>fs story story'.
     length fs = length (rows df) \<and>
     snd (generate_sticker_labels qr_lib doc_build df) =
       (case doc_build story of Inl e \<Rightarrow> Inr None | Inr u \<Rightarrow> Inr (Some story)) \<and>
     snd (generate_sticker_labels qr_lib' doc_build df) =
       (case doc_build story' of Inl e \<Rightarrow> Inr None | Inr u \<Rightarrow> Inr (Some story')) \<and>
     ((\<forall>s. doc_build s = Inr ()) \<longrightarrow>
        snd (generate_sticker_labels qr_lib doc_build df) = Inr (Some story) \<and>
        snd (generate_sticker_labels qr_lib' doc_build df) = Inr (Some story')) \<and>
     stickers story = map (\<lambda>f. compose_sticker (generate_qr_code qr_lib (qr_data f)) f) fs \<and>
     stickers story' = map (\<lambda>f. compose_sticker (generate_qr_code qr_lib' (qr_data f)) f) fs \<and>
     (\<forall>f e. qr_lib' (qr_data f) = Inl e \<longrightarrow>
        compose_sticker (generate_qr_code qr_lib' (qr_data f)) f =
        (compose_sticker (generate_qr_code qr_lib (qr_data f)) f)
          \<lparr>qr_table := QrText (Paragraph ''QR'' qr_placeholder_style)\<rparr>) \<and>
     fontName qr_placeholder_style = ''Helvetica-Bold'' \<and>
     alignment qr_placeholder_style = TA_CENTER"
proof -
  define cols where "cols = map upper_label (columns df)"
  obtain m where m: "resolve_columns cols = Inr m"
    using generate_story[OF assms(1,2,4,5) cols_def] by blast
  define st where "st = (\<lambda>lib :: string \<Rightarrow> py_error + 'a.
      concat (map (\<lambda>r.
        [Spacer, FinalTable (compose_sticker
            (generate_qr_code lib (qr_data (projr (extract_fields cols m (snd r)))))
            (projr (extract_fields cols m (snd r))))] @
        (if index_lt (fst r) (int (length (rows df)) - 1) = Inr True then [PageBreak] else []))
        (rows df)))"
  have run: "snd (generate_sticker_labels lib doc_build df) =
       (case doc_build (st lib) of Inl e \<Rightarrow> Inr None | Inr u \<Rightarrow> Inr (Some (st lib)))"
    for lib :: "string \<Rightarrow> py_error + 'a"
  proof -
    obtain m' where a: "resolve_columns cols = Inr m'"
      and b: "snd (generate_sticker_labels lib doc_build df) =
       (let story = concat (map (\<lambda>r.
          [Spacer, FinalTable (compose_sticker
              (generate_qr_code lib (qr_data (projr (extract_fields cols m' (snd r)))))
              (projr (extract_fields cols m' (snd r))))] @
          (if index_lt (fst r) (int (length (rows df)) - 1) = Inr True then [PageBreak] else []))
          (rows df))
        in case doc_build story of Inl e \<Rightarrow> Inr None | Inr u \<Rightarrow> Inr (Some story))"
      using generate_story[OF assms(1,2,4,5) cols_def, of lib doc_build] by blast
    have mm: "m' = m" using a m by simp
    show ?thesis using b unfolding mm Let_def st_def .
  qed
  define fs where "fs = map (\<lambda>r. projr (extract_fields cols m (snd r))) (rows df)"
  have sts: "stickers (st lib) = map (\<lambda>f. compose_sticker (generate_qr_code lib (qr_data f)) f) fs"
    for lib :: "string \<Rightarrow> py_error + 'a"
    unfolding fs_def st_def
    by (simp add: stickers_concat_rows[where g = "\<lambda>r. compose_sticker
              (generate_qr_code lib (qr_data (projr (extract_fields cols m (snd r)))))
              (projr (extract_fields cols m (snd r)))"
          and b = "\<lambda>r. index_lt (fst r) (int (length (rows df)) - 1) = Inr True"] comp_def)
  have ph: "\<forall>f e. qr_lib' (qr_data f) = Inl e \<longrightarrow>
        compose_sticker (generate_qr_code qr_lib' (qr_data f)) f =
        (compose_sticker (generate_qr_code qr_lib (qr_data f)) f)
          \<lparr>qr_table := QrText (Paragraph ''QR'' qr_placeholder_style)\<rparr>"
    by (simp add: generate_qr_code_def compose_sticker_placeholder[symmetric])
  have len: "length fs = length (rows df)" by (simp add: fs_def)
  have tot: "(\<forall>s. doc_build s = Inr ()) \<longrightarrow>
        snd (generate_sticker_labels qr_lib doc_build df) = Inr (Some (st qr_lib)) \<and>
        snd (generate_sticker_labels qr_lib' doc_build df) = Inr (Some (st qr_lib'))"
    by (simp add: run)
  have sty: "fontName qr_placeholder_style = ''Helvetica-Bold''"
    "alignment qr_placeholder_style = TA_CENTER"
    by (simp_all add: qr_placeholder_style_def)
  show ?thesis
    using len run[of qr_lib] run[of qr_lib'] tot sts[of qr_lib] sts[of qr_lib'] ph sty
    by blast
qed

theorem qr_failure_absorbed_witness:
  "[''Part'', ''Desc''] \<noteq> [] \<and>
   unique_labels \<lparr>columns = map Str [''Part'', ''Desc''],
                  rows = [(IntLabel 0, [\<lparr>cell_notna = True, cell_str = ''P1''\<rparr>,
                                        \<lparr>cell_notna = True, cell_str = ''D1''\<rparr>]),
                          (IntLabel 1, [\<lparr>cell_notna = True, cell_str = ''P2''\<rparr>,
                                        \<lparr>cell_notna = True, cell_str = ''D2''\<rparr>])]\<rparr> \<and>
   well_formed \<lparr>columns = map Str [''Part'', ''Desc''],
                rows = [(IntLabel 0, [\<lparr>cell_notna = True, cell_str = ''P1''\<rparr>,
                                      \<lparr>cell_notna = True, cell_str = ''D1''\<rparr>]),
                        (IntLabel 1, [\<lparr>cell_notna = True, cell_str = ''P2''\<rparr>,
                                      \<lparr>cell_notna = True, cell_str = ''D2''\<rparr>])]\<rparr> \<and>
   int_index \<lparr>columns = map Str [''Part'', ''Desc''],
              rows = [(IntLabel 0, [\<lparr>cell_notna = True, cell_str = ''P1''\<rparr>,
                                    \<lparr>cell_notna = True, cell_str = ''D1''\<rparr>]),
                      (IntLabel 1, [\<lparr>cell_notna = True, cell_str = ''P2''\<rparr>,
                                    \<lparr>cell_notna = True, cell_str = ''D2''\<rparr>])]\<rparr> \<and>
   (\<exists>story story'.
      snd (generate_sticker_labels (\<lambda>s. Inr s) (\<lambda>s. Inr ())
        \<lparr>columns = map Str [''Part'', ''Desc''],
         rows = [(IntLabel 0, [\<lparr>cell_notna = True, cell_str = ''P1''\<rparr>,
                               \<lparr>cell_notna = True, cell_str = ''D1''\<rparr>]),
                 (IntLabel 1, [\<lparr>cell_notna = True, cell_str = ''P2''\<rparr>,
                               \<lparr>cell_notna = True, cell_str = ''D2''\<rparr>])]\<rparr>) = Inr (Some story) \<and>
      snd (generate_sticker_labels (\<lambda>s. Inl LibraryError :: py_error + string) (\<lambda>s. Inr ())
        \<lparr>columns = map Str [''Part'', ''Desc''],
         rows = [(IntLabel 0, [\<lparr>cell_notna = True, cell_str = ''P1''\<rparr>,
                               \<lparr>cell_notna = True, cell_str = ''D1''\<rparr>]),
                 (IntLabel 1, [\<lparr>cell_notna = True, cell_str = ''P2''\<rparr>,
                               \<lparr>cell_notna = True, cell_str = ''D2''\<rparr>])]\<rparr>) = Inr (Some story') \<and>
      length (stickers story) = 2 \<and> length (stickers story') = 2)"
proof -
  let ?df = "\<lparr>columns = map Str [''Part'', ''Desc''],
                rows = [(IntLabel 0, [\<lparr>cell_notna = True, cell_str = ''P1''\<rparr>,
                                      \<lparr>cell_notna = True, cell_str = ''D1''\<rparr>]),
                        (IntLabel 1, [\<lparr>cell_notna = True, cell_str = ''P2''\<rparr>,
                                      \<lparr>cell_notna = True, cell_str = ''D2''\<rparr>])]\<rparr>"
  have ne: "[''Part'', ''Desc''] \<noteq> []" by simp
  have c: "columns ?df = map Str [''Part'', ''Desc'']" by simp
  have u: "unique_labels ?df" by code_simp
  have wf: "well_formed ?df" by (simp add: well_formed_def)
  have ix: "int_index ?df" by (simp add: int_index_def)
  from qr_failure_absorbed[OF ne c u wf ix, of "\<lambda>s. Inr s" "\<lambda>s. Inr ()" "\<lambda>s. Inl LibraryError"]
  obtain fs story story' where
    "length fs = length (rows ?df)"
    "(\<forall>s. (\<lambda>s. Inr ()) s = (Inr () :: py_error + unit)) \<longrightarrow>
       snd (generate_sticker_labels (\<lambda>s. Inr s) (\<lambda>s. Inr ()) ?df) = Inr (Some story) \<and>
       snd (generate_sticker_labels (\<lambda>s. Inl LibraryError :: py_error + string) (\<lambda>s. Inr ()) ?df)
         = Inr (Some story')"
    "stickers story = map (\<lambda>f. compose_sticker (generate_qr_code (\<lambda>s. Inr s) (qr_data f)) f) fs"
    "stickers story' =
       map (\<lambda>f. compose_sticker (generate_qr_code (\<lambda>s. Inl LibraryError) (qr_data f)) f) fs"
    by blast
  then show ?thesis using ne u wf ix by auto
qed




text \<open>
  C9. The run changes nothing of the caller's frame but the column labels: the rows, with
  their order, their number, their index labels and every cell, are the same after the run,
  whatever the libraries do and whether or not an exception leaves the function, and each
  column label is replaced by its upper-cased form (stated for the labels whose upper-cased
  form stays within the code points 0..255). For the frame with one row and the two columns
  \<open>Part No\<close> and \<open>caf? stra?e\<close>, the question marks standing for the e with acute accent 0xE9
  and the sharp s 0xDF, the frame after the run has the columns \<open>PART NO\<close> and
  \<open>CAF? STRASSE\<close>, with the capital 0xC9, and the same row.
\<close>

theorem only_column_labels_change:
  "rows (fst (generate_sticker_labels qr_lib doc_build df)) = rows df \<and>
   (list_all label_representable (columns df) \<longrightarrow>
      fst (generate_sticker_labels qr_lib doc_build df) =
        df\<lparr>columns := map upper_label (columns df)\<rparr> \<and>
      columns (fst (generate_sticker_labels qr_lib doc_build df)) =
        map upper_label (columns df)) \<and>
   fst (generate_sticker_labels (Inr :: string \<Rightarrow> py_error + string) build_fails
     \<lparr>columns = [Str ''Part No'', Str (''caf'' @ [CHR 0xE9] @ '' stra'' @ [CHR 0xDF] @ ''e'')],
      rows = [(IntLabel 0, [\<lparr>cell_notna = True, cell_str = ''p1''\<rparr>,
                            \<lparr>cell_notna = False, cell_str = ''nan''\<rparr>])]\<rparr>) =
     \<lparr>columns = [Str ''PART NO'', Str (''CAF'' @ [CHR 0xC9] @ '' STRASSE'')],
      rows = [(IntLabel 0, [\<lparr>cell_notna = True, cell_str = ''p1''\<rparr>,
                            \<lparr>cell_notna = False, cell_str = ''nan''\<rparr>])]\<rparr>"
proof -
  have ex: "fst (generate_sticker_labels (Inr :: string \<Rightarrow> py_error + string) build_fails
     \<lparr>columns = [Str ''Part No'', Str (''caf'' @ [CHR 0xE9] @ '' stra'' @ [CHR 0xDF] @ ''e'')],
      rows = [(IntLabel 0, [\<lparr>cell_notna = True, cell_str = ''p1''\<rparr>,
                            \<lparr>cell_notna = False, cell_str = ''nan''\<rparr>])]\<rparr>) =
     \<lparr>columns = [Str ''PART NO'', Str (''CAF'' @ [CHR 0xC9] @ '' STRASSE'')],
      rows = [(IntLabel 0, [\<lparr>cell_notna = True, cell_str = ''p1''\<rparr>,
                            \<lparr>cell_notna = False, cell_str = ''nan''\<rparr>])]\<rparr>"
    by code_simp
  show ?thesis
    using ex by (simp add: generate_frame)
qed

theorem only_column_labels_change_witness:
  "list_all label_representable [Str ''Part No'', Str ''qty/bin'', Num 7] \<and>
   fst (generate_sticker_labels (Inr :: string \<Rightarrow> py_error + string) build_fails
     \<lparr>columns = [Str ''Part No'', Str ''qty/bin'', Num 7],
      rows = [(TextLabel ''r1'', [\<lparr>cell_notna = True, cell_str = ''p1''\<rparr>,
                                  \<lparr>cell_notna = True, cell_str = ''4''\<rparr>,
                                  \<lparr>cell_notna = True, cell_str = ''x''\<rparr>])]\<rparr>) =
     \<lparr>columns = [Str ''PART NO'', Str ''QTY/BIN'', Num 7],
      rows = [(TextLabel ''r1'', [\<lparr>cell_notna = True, cell_str = ''p1''\<rparr>,
                                  \<lparr>cell_notna = True, cell_str = ''4''\<rparr>,
                                  \<lparr>cell_notna = True, cell_str = ''x''\<rparr>])]\<rparr>"
proof -
  let ?df = "\<lparr>columns = [Str ''Part No'', Str ''qty/bin'', Num 7],
      rows = [(TextLabel ''r1'', [\<lparr>cell_notna = True, cell_str = ''p1''\<rparr>,
                                  \<lparr>cell_notna = True, cell_str = ''4''\<rparr>,
                                  \<lparr>cell_notna = True, cell_str = ''x''\<rparr>])]\<rparr>"
  have h: "list_all label_representable (columns ?df)" by code_simp
  have up: "upper_label (Str ''Part No'') = Str ''PART NO''"
    "upper_label (Str ''qty/bin'') = Str ''QTY/BIN''"
    "upper_label (Num 7) = Num 7"
    by code_simp+
  from only_column_labels_change[of Inr build_fails ?df] h
  have "fst (generate_sticker_labels (Inr :: string \<Rightarrow> py_error + string) build_fails ?df) =
        ?df\<lparr>columns := map upper_label (columns ?df)\<rparr>"
    by blast
  then show ?thesis using h by (simp add: up)
qed

end
